theory Spec2Isabelle
  imports Main "HOL-Library.Word"
begin

unbundle bit_operations_syntax

section \<open>JavaScript values\<close>

text \<open>
  A JavaScript string is a sequence of UTF-16 code units. ASCII literals of the source
  are written with \<open>js\<close>.
\<close>

type_synonym jsstring = "16 word list"

definition js :: "string \<Rightarrow> jsstring" where
  "js s = map of_char s"

text \<open>
  The values a parsed JSON body (and \<open>undefined\<close>) can hold. A number is its IEEE-754
  binary64 bit pattern; an object is the list of its own properties (keys distinct after
  \<open>JSON.parse\<close>).
\<close>

datatype jsval =
    JUndefined
  | JNull
  | JBool bool
  | JNum "64 word"
  | JStr jsstring
  | JArr "jsval list"
  | JObj "(jsstring \<times> jsval) list"

definition isZero :: "64 word \<Rightarrow> bool" where
  "isZero w = (w AND 0x7FFFFFFFFFFFFFFF = 0)"

definition isNaN :: "64 word \<Rightarrow> bool" where
  "isNaN w = (w AND 0x7FF0000000000000 = 0x7FF0000000000000 \<and> w AND 0x000FFFFFFFFFFFFF \<noteq> 0)"

text \<open>ToBoolean: \<open>undefined\<close>, \<open>null\<close>, \<open>false\<close>, \<open>+0\<close>, \<open>-0\<close>, \<open>NaN\<close> and \<open>""\<close> are falsy.\<close>

fun truthy :: "jsval \<Rightarrow> bool" where
  "truthy JUndefined = False"
| "truthy JNull = False"
| "truthy (JBool b) = b"
| "truthy (JNum w) = (\<not> isZero w \<and> \<not> isNaN w)"
| "truthy (JStr s) = (s \<noteq> [])"
| "truthy (JArr _) = True"
| "truthy (JObj _) = True"

text \<open>\<open>a || b\<close> on values.\<close>

definition jsOr :: "jsval \<Rightarrow> jsval \<Rightarrow> jsval" where
  "jsOr a b = (if truthy a then a else b)"

datatype error = TypeError | CallbackError

text \<open>
  \<open>v.k\<close>: a TypeError on \<open>undefined\<close> and \<open>null\<close>; the own property of an object, or
  \<open>undefined\<close>. The keys this program reads (\<open>ok\<close>, \<open>logged_in\<close>, \<open>email\<close>,
  \<open>nickname\<close>, \<open>profile_image\<close>, \<open>id\<close>) are on no prototype, so every other value
  gives \<open>undefined\<close>.
\<close>

fun getProp :: "jsval \<Rightarrow> jsstring \<Rightarrow> error + jsval" where
  "getProp JUndefined k = Inl TypeError"
| "getProp JNull k = Inl TypeError"
| "getProp (JObj kvs) k = Inr (case map_of kvs k of None \<Rightarrow> JUndefined | Some v \<Rightarrow> v)"
| "getProp v k = Inr JUndefined"

text \<open>\<open>v?.k\<close>: \<open>undefined\<close> on \<open>undefined\<close> and \<open>null\<close>, else \<open>v.k\<close>.\<close>

fun getPropOpt :: "jsval \<Rightarrow> jsstring \<Rightarrow> error + jsval" where
  "getPropOpt JUndefined k = Inr JUndefined"
| "getPropOpt JNull k = Inr JUndefined"
| "getPropOpt v k = getProp v k"

section \<open>String operations\<close>

definition slash :: "16 word" where
  "slash = 0x2F"

text \<open>
  \<open>s.replace(/\/+$/, "")\<close>: the regular expression is tried at each position from the
  left; at a position it matches when the rest of the string is a non-empty run of
  slashes, and the match is replaced by the empty string.
\<close>

fun replaceTrailingSlashes :: "jsstring \<Rightarrow> jsstring" where
  "replaceTrailingSlashes [] = []"
| "replaceTrailingSlashes (c # cs) =
     (if c = slash \<and> list_all (\<lambda>d. d = slash) cs then []
      else c # replaceTrailingSlashes cs)"

text \<open>\<open>s.endsWith(t)\<close>.\<close>

definition endsWith :: "jsstring \<Rightarrow> jsstring \<Rightarrow> bool" where
  "endsWith s t = (length t \<le> length s \<and> drop (length s - length t) s = t)"




section \<open>API_BASE\<close>

definition renderUrl :: jsstring where
  "renderUrl = js ''https://aichatbotproject.onrender.com''"

definition localUrl :: jsstring where
  "localUrl = js ''http://localhost:8000''"

text \<open>
  \<open>process.env.REACT_APP_API_BASE\<close> is a string or \<open>undefined\<close> (\<open>None\<close>).

  AuthActions.jsx and the session-aware Header:
  \<^verbatim>\<open>(env && env.replace(/\/+$/, "")) || "https://aichatbotproject.onrender.com"\<close>
\<close>

definition API_BASE_AuthActions :: "jsstring option \<Rightarrow> jsstring" where
  "API_BASE_AuthActions env =
     (let a = (case env of
                 None \<Rightarrow> None
               | Some e \<Rightarrow> if e = [] then Some e else Some (replaceTrailingSlashes e))
      in case a of
           None \<Rightarrow> renderUrl
         | Some s \<Rightarrow> if s = [] then renderUrl else s)"

definition API_BASE_Header :: "jsstring option \<Rightarrow> jsstring" where
  "API_BASE_Header env =
     (let a = (case env of
                 None \<Rightarrow> None
               | Some e \<Rightarrow> if e = [] then Some e else Some (replaceTrailingSlashes e))
      in case a of
           None \<Rightarrow> renderUrl
         | Some s \<Rightarrow> if s = [] then renderUrl else s)"

text \<open>
  The legacy Header.jsx: \<^verbatim>\<open>env || "https://aichatbotproject.onrender.com"\<close>
\<close>

definition API_BASE_legacy :: "jsstring option \<Rightarrow> jsstring" where
  "API_BASE_legacy env =
     (case env of None \<Rightarrow> renderUrl | Some e \<Rightarrow> if e = [] then renderUrl else e)"

text \<open>
  App.js, where \<open>window\<close> is \<open>None\<close> when \<open>typeof window\<close> is \<open>"undefined"\<close> and the
  hostname otherwise:
  \<^verbatim>\<open>(env || (typeof window !== "undefined" && hostname.endsWith("github.io")
       ? render : "http://localhost:8000")).replace(/\/+$/, "")\<close>
\<close>

definition API_BASE_App :: "jsstring option \<Rightarrow> jsstring option \<Rightarrow> jsstring" where
  "API_BASE_App env window =
     replaceTrailingSlashes
       (let dflt = (if (case window of None \<Rightarrow> False | Some h \<Rightarrow> endsWith h (js ''github.io''))
                    then renderUrl else localUrl)
        in case env of None \<Rightarrow> dflt | Some e \<Rightarrow> if e = [] then dflt else e)"

section \<open>Effects and outcomes\<close>

text \<open>
  What a handler does to the outside world, in the order it does it. A \<open>Fetch\<close> carries
  the URL, the method and whether \<open>credentials: "include"\<close> was passed.
\<close>

datatype http_method = GET | POST

datatype callback_name = OnDone | OnLogout | OnUnlink

datatype effect =
    Fetch jsstring http_method bool
  | ConsoleError
  | Called callback_name
  | LocalStorageClear
  | NavigateTo jsstring bool

text \<open>How a promise settles.\<close>

datatype 'a settled = Rejected | Fulfilled 'a

text \<open>A response: \<open>res.ok\<close> (a 2xx status) and how \<open>res.json()\<close> settles.\<close>

record response =
  ok :: bool
  json :: "jsval settled"

text \<open>
  A callback prop is absent (\<open>None\<close>) or a function, which returns or throws when it is
  called.
\<close>

datatype callback = Returns | Throws

text \<open>\<open>cb && cb()\<close>, appended to what has happened so far.\<close>

definition invoke :: "callback option \<Rightarrow> callback_name \<Rightarrow> effect list \<Rightarrow> 'a \<Rightarrow> effect list \<times> (error + 'a)" where
  "invoke cb name t ret =
     (case cb of
        None \<Rightarrow> (t, Inr ret)
      | Some Returns \<Rightarrow> (t @ [Called name], Inr ret)
      | Some Throws \<Rightarrow> (t @ [Called name], Inl CallbackError))"

section \<open>AuthActions.jsx\<close>

text \<open>
  \<open>call\<close>: the fetch inside \<open>try\<close>, the logging \<open>catch\<close> that returns \<open>false\<close>, and the
  \<open>finally\<close> that calls \<open>onDone\<close>. The result is the trace and how the promise of
  \<open>call\<close> settles.
\<close>

definition call :: "jsstring option \<Rightarrow> jsstring \<Rightarrow> http_method \<Rightarrow> response settled \<Rightarrow> callback option
    \<Rightarrow> effect list \<times> (error + bool)" where
  "call env path method r onDone =
     (let req = Fetch (API_BASE_AuthActions env @ path) method True
      in case r of
           Fulfilled res \<Rightarrow> invoke onDone OnDone [req] (ok res)
         | Rejected \<Rightarrow> invoke onDone OnDone [req, ConsoleError] False)"

definition handleLogout :: "jsstring option \<Rightarrow> response settled \<Rightarrow> callback option \<Rightarrow> callback option
    \<Rightarrow> effect list \<times> (error + unit)" where
  "handleLogout env r onDone onLogout =
     (case call env (js ''/auth/kakao/logout'') POST r onDone of
        (t, Inl e) \<Rightarrow> (t, Inl e)
      | (t, Inr _) \<Rightarrow> invoke onLogout OnLogout t ())"

definition handleUnlink :: "jsstring option \<Rightarrow> response settled \<Rightarrow> callback option \<Rightarrow> callback option
    \<Rightarrow> effect list \<times> (error + unit)" where
  "handleUnlink env r onDone onUnlink =
     (case call env (js ''/auth/kakao/unlink'') POST r onDone of
        (t, Inl e) \<Rightarrow> (t, Inl e)
      | (t, Inr _) \<Rightarrow> invoke onUnlink OnUnlink t ())"

section \<open>The legacy Header.jsx\<close>

text \<open>
  The awaited fetch inside \<open>try\<close>, the logging \<open>catch\<close>, and the \<open>finally\<close> that clears
  local storage and navigates to \<open>/\<close> with \<open>replace: true\<close>.
\<close>

definition legacy_handleLogout :: "jsstring option \<Rightarrow> response settled \<Rightarrow> effect list" where
  "legacy_handleLogout env r =
     Fetch (API_BASE_legacy env @ js ''/logout'') GET True
     # (case r of Fulfilled res \<Rightarrow> [] | Rejected \<Rightarrow> [ConsoleError])
     @ [LocalStorageClear, NavigateTo (js ''/'') True]"

definition legacy_handleUnlink :: "jsstring option \<Rightarrow> response settled \<Rightarrow> effect list" where
  "legacy_handleUnlink env r =
     Fetch (API_BASE_legacy env @ js ''/unlink'') GET True
     # (case r of Fulfilled res \<Rightarrow> [] | Rejected \<Rightarrow> [ConsoleError])
     @ [LocalStorageClear, NavigateTo (js ''/'') True]"

section \<open>The session-aware Header\<close>

record userInfo =
  email :: jsval
  nickname :: jsval
  profile_image :: jsval
  id_field :: jsval

definition sbind :: "error + 'a \<Rightarrow> ('a \<Rightarrow> error + 'b) \<Rightarrow> error + 'b" where
  "sbind m f = (case m of Inl e \<Rightarrow> Inl e | Inr x \<Rightarrow> f x)"

text \<open>
  The object literal passed to \<open>setUserInfo\<close>:
  \<^verbatim>\<open>{ email: data.email || "", nickname: data.nickname || "",
    profile_image: data.profile_image || "", id: data.id }\<close>
\<close>

definition mkUserInfo :: "jsval \<Rightarrow> error + userInfo" where
  "mkUserInfo data =
     sbind (getProp data (js ''email'')) (\<lambda>e.
     sbind (getProp data (js ''nickname'')) (\<lambda>n.
     sbind (getProp data (js ''profile_image'')) (\<lambda>p.
     sbind (getProp data (js ''id'')) (\<lambda>i.
       Inr \<lparr>email = jsOr e (JStr []), nickname = jsOr n (JStr []),
            profile_image = jsOr p (JStr []), id_field = i\<rparr>))))"

text \<open>
  \<open>fetchUserInfo\<close>, from how the whoami fetch settles and the state before (\<open>userInfo\<close> is
  \<open>null\<close> or an object) to the trace and the state it sets. Every exception inside
  \<open>try\<close> is logged and sets \<open>null\<close>.
\<close>

definition fetchUserInfo :: "jsstring option \<Rightarrow> response settled \<Rightarrow> userInfo option
    \<Rightarrow> effect list \<times> userInfo option" where
  "fetchUserInfo env r prior =
     (let req = Fetch (API_BASE_Header env @ js ''/auth/kakao/whoami'') GET True
      in case r of
           Rejected \<Rightarrow> ([req, ConsoleError], None)
         | Fulfilled res \<Rightarrow>
             if \<not> ok res then ([req], None)
             else (case json res of
                     Rejected \<Rightarrow> ([req, ConsoleError], None)
                   | Fulfilled data \<Rightarrow>
                       (case getPropOpt data (js ''logged_in'') of
                          Inl e \<Rightarrow> ([req, ConsoleError], None)
                        | Inr li \<Rightarrow>
                            if truthy li
                            then (case mkUserInfo data of
                                    Inl e \<Rightarrow> ([req, ConsoleError], None)
                                  | Inr u \<Rightarrow> ([req], Some u))
                            else ([req], None))))"


section \<open>App.js and Router.jsx\<close>

record app_state =
  authChecked :: bool
  isLoggedIn :: bool

text \<open>The two \<open>useState(false)\<close>.\<close>

definition app_init :: app_state where
  "app_init = \<lparr>authChecked = False, isLoggedIn = False\<rparr>"

text \<open>
  The effect run once on mount: the fetch of \<open>/auth/session\<close>, \<open>res.json()\<close> with its
  \<open>.catch(() => ({}))\<close>, \<open>setIsLoggedIn(!!data?.ok)\<close>, the \<open>catch\<close> that sets
  \<open>false\<close>, and the \<open>finally\<close> that sets \<open>authChecked\<close>.
\<close>

definition sessionCheck :: "jsstring option \<Rightarrow> jsstring option \<Rightarrow> response settled \<Rightarrow> app_state
    \<Rightarrow> effect list \<times> app_state" where
  "sessionCheck env window r s =
     (let req = Fetch (API_BASE_App env window @ js ''/auth/session'') GET True;
          s1 = (case r of
                  Rejected \<Rightarrow> s\<lparr>isLoggedIn := False\<rparr>
                | Fulfilled res \<Rightarrow>
                    (let data = (case json res of Rejected \<Rightarrow> JObj [] | Fulfilled d \<Rightarrow> d)
                     in case getPropOpt data (js ''ok'') of
                          Inl e \<Rightarrow> s\<lparr>isLoggedIn := False\<rparr>
                        | Inr v \<Rightarrow> s\<lparr>isLoggedIn := truthy v\<rparr>))
      in ([req], s1\<lparr>authChecked := True\<rparr>))"

text \<open>
  A route's element: a page (\<open>LoginPage\<close> with whether it gets the \<open>onLogin\<close> prop) or
  \<open>Navigate\<close> with its target and \<open>replace\<close>.
\<close>

datatype element =
    LoginPage bool
  | HomePage
  | ChatBotPage
  | PatientInfoPage
  | FeedbackPage
  | Navigate jsstring bool

type_synonym route = "jsstring \<times> element"

datatype view = Loading | Routes "route list"

text \<open>What \<open>App\<close> returns for a state.\<close>

definition App :: "app_state \<Rightarrow> view" where
  "App s =
     (if \<not> authChecked s then Loading
      else Routes
        (if \<not> isLoggedIn s
         then [(js ''/'', LoginPage True),
               (js ''*'', Navigate (js ''/'') True)]
         else [(js ''/'', HomePage),
               (js ''/home'', HomePage),
               (js ''/chat'', ChatBotPage),
               (js ''/patient'', Navigate (js ''/patient/25-0000032'') True),
               (js ''/patient/:patientId'', PatientInfoPage),
               (js ''/feedback'', FeedbackPage),
               (js ''*'', Navigate (js ''/'') True)]))"












section \<open>Notions the properties are stated with\<close>

text \<open>The value of an own property of an object, \<open>undefined\<close> when it is missing.\<close>

definition field :: "(jsstring \<times> jsval) list \<Rightarrow> jsstring \<Rightarrow> jsval" where
  "field kvs k = (case map_of kvs k of None \<Rightarrow> JUndefined | Some v \<Rightarrow> v)"

fun isFetch :: "effect \<Rightarrow> bool" where
  "isFetch (Fetch _ _ _) = True"
| "isFetch _ = False"

text \<open>
  In a trace, \<open>b\<close> happens after the first \<open>a\<close> and never before it.
\<close>

definition precedes :: "effect \<Rightarrow> effect \<Rightarrow> effect list \<Rightarrow> bool" where
  "precedes a b t =
     (b \<notin> set (takeWhile (\<lambda>e. e \<noteq> a) t) \<and> b \<in> set (dropWhile (\<lambda>e. e \<noteq> a) t))"

definition hasTrailingSlash :: "jsstring \<Rightarrow> bool" where
  "hasTrailingSlash s = (s \<noteq> [] \<and> last s = slash)"

text \<open>
  "All trailing slashes stripped", as the specification words it: the string without
  its longest suffix of slashes.
\<close>

definition stripAllTrailingSlashes_spec :: "jsstring \<Rightarrow> jsstring" where
  "stripAllTrailingSlashes_spec s = rev (dropWhile (\<lambda>c. c = slash) (rev s))"

section \<open>Lemmas on values and strings\<close>

lemma getPropOpt_truthy:
  "getPropOpt data k = Inr v \<Longrightarrow> truthy v \<Longrightarrow> \<exists>kvs. data = JObj kvs \<and> map_of kvs k = Some v"
  by (cases data) (auto split: option.splits)

lemma getPropOpt_total: "\<exists>v. getPropOpt data k = Inr v"
  by (cases data) auto

lemma replaceTrailingSlashes_all:
  "list_all (\<lambda>d. d = slash) s \<Longrightarrow> replaceTrailingSlashes s = []"
  by (induction s) auto

lemma dropWhile_rev_all: "list_all P s \<Longrightarrow> dropWhile P (rev s) = []"
  by (simp add: list_all_iff)

text \<open>The regular expression replacement strips all trailing slashes.\<close>

lemma replaceTrailingSlashes_spec: "replaceTrailingSlashes s = stripAllTrailingSlashes_spec s"
proof (induction s)
  case Nil
  show ?case by (simp add: stripAllTrailingSlashes_spec_def)
next
  case (Cons c cs)
  show ?case
  proof (cases "list_all (\<lambda>d. d = slash) cs")
    case True
    then have "dropWhile (\<lambda>c. c = slash) (rev cs) = []" by (rule dropWhile_rev_all)
    with True replaceTrailingSlashes_all[of cs] show ?thesis
      by (simp add: stripAllTrailingSlashes_spec_def dropWhile_append)
  next
    case False
    then have "dropWhile (\<lambda>c. c = slash) (rev cs) \<noteq> []"
      by (auto simp: list_all_iff)
    with False Cons show ?thesis
      by (simp add: stripAllTrailingSlashes_spec_def dropWhile_append)
  qed
qed

lemma no_trailing_spec: "\<not> hasTrailingSlash (stripAllTrailingSlashes_spec s)"
  unfolding hasTrailingSlash_def stripAllTrailingSlashes_spec_def
  using hd_dropWhile[of "\<lambda>c. c = slash" "rev s"]
  by (auto simp: last_rev)

lemma strip_spec_id: "\<not> hasTrailingSlash s \<Longrightarrow> stripAllTrailingSlashes_spec s = s"
proof (cases s rule: rev_cases)
  case Nil
  then show ?thesis by (simp add: stripAllTrailingSlashes_spec_def)
next
  case (snoc ys y)
  assume "\<not> hasTrailingSlash s"
  with snoc have "y \<noteq> slash" by (simp add: hasTrailingSlash_def)
  with snoc show ?thesis by (simp add: stripAllTrailingSlashes_spec_def)
qed

lemma renderUrl_no_slash: "\<not> hasTrailingSlash renderUrl"
  by (simp add: hasTrailingSlash_def renderUrl_def js_def slash_def)

lemma localUrl_no_slash: "\<not> hasTrailingSlash localUrl"
  by (simp add: hasTrailingSlash_def localUrl_def js_def slash_def)



section \<open>Lemmas on the handlers\<close>

lemma call_cases:
  "call env path method r onDone =
     (let t = Fetch (API_BASE_AuthActions env @ path) method True
                # (case r of Rejected \<Rightarrow> [ConsoleError] | Fulfilled res \<Rightarrow> []);
          ret = (case r of Rejected \<Rightarrow> False | Fulfilled res \<Rightarrow> ok res)
      in case onDone of
           None \<Rightarrow> (t, Inr ret)
         | Some Returns \<Rightarrow> (t @ [Called OnDone], Inr ret)
         | Some Throws \<Rightarrow> (t @ [Called OnDone], Inl CallbackError))"
  by (cases r) (simp_all add: call_def invoke_def Let_def)

lemma mkUserInfo_obj:
  "mkUserInfo (JObj kvs) =
     Inr \<lparr>email = jsOr (field kvs (js ''email'')) (JStr []),
          nickname = jsOr (field kvs (js ''nickname'')) (JStr []),
          profile_image = jsOr (field kvs (js ''profile_image'')) (JStr []),
          id_field = field kvs (js ''id'')\<rparr>"
  by (simp add: mkUserInfo_def sbind_def field_def)

lemma fetchUserInfo_logged_in:
  assumes "ok res" "json res = Fulfilled (JObj kvs)" "truthy (field kvs (js ''logged_in''))"
  shows "snd (fetchUserInfo env (Fulfilled res) prior) =
     Some \<lparr>email = jsOr (field kvs (js ''email'')) (JStr []),
          nickname = jsOr (field kvs (js ''nickname'')) (JStr []),
          profile_image = jsOr (field kvs (js ''profile_image'')) (JStr []),
          id_field = field kvs (js ''id'')\<rparr>"
  using assms by (simp add: fetchUserInfo_def Let_def mkUserInfo_obj field_def)

lemma sessionCheck_isLoggedIn_iff:
  "isLoggedIn (snd (sessionCheck env window r s)) \<longleftrightarrow>
      (\<exists>res kvs v. r = Fulfilled res \<and> json res = Fulfilled (JObj kvs)
          \<and> map_of kvs (js ''ok'') = Some v \<and> truthy v)"
proof (cases r)
  case Rejected
  then show ?thesis by (simp add: sessionCheck_def)
next
  case (Fulfilled res')
  note r = this
  show ?thesis
  proof (cases "json res'")
    case Rejected
    with r show ?thesis by (simp add: sessionCheck_def)
  next
    case (Fulfilled data)
    note j = this
    obtain v where v: "getPropOpt data (js ''ok'') = Inr v"
      using getPropOpt_total by blast
    show ?thesis
    proof (cases "truthy v")
      case True
      with v obtain kvs where "data = JObj kvs" "map_of kvs (js ''ok'') = Some v"
        using getPropOpt_truthy by blast
      with True r j v show ?thesis
        by (simp add: sessionCheck_def)
    next
      case False
      have "\<not> (\<exists>kvs v'. data = JObj kvs \<and> map_of kvs (js ''ok'') = Some v' \<and> truthy v')"
        using v False by auto
      with False r j v show ?thesis
        by (simp add: sessionCheck_def)
    qed
  qed
qed


section \<open>The startup session check of App\<close>

text \<open>
  C1 (as amended). The HTTP status plays no part in the session check of App: it sets
  \<open>isLoggedIn\<close> to true exactly when the fetch is fulfilled and the body parses to an
  object whose \<open>ok\<close> field is truthy, whatever \<open>res.ok\<close> is. A rejected fetch and a
  body that does not parse give \<open>isLoggedIn = false\<close>.
\<close>

theorem sessionCheck_body_decides:
  "(isLoggedIn (snd (sessionCheck env window r s)) \<longleftrightarrow>
      (\<exists>res kvs v. r = Fulfilled res \<and> json res = Fulfilled (JObj kvs)
          \<and> map_of kvs (js ''ok'') = Some v \<and> truthy v))
   \<and> sessionCheck env window (Fulfilled (res\<lparr>ok := b\<rparr>)) s
       = sessionCheck env window (Fulfilled res) s"
proof -
  have 1: "sessionCheck env window (Fulfilled (res\<lparr>ok := b\<rparr>)) s
      = sessionCheck env window (Fulfilled res) s"
    by (simp add: sessionCheck_def)
  have 2: "isLoggedIn (snd (sessionCheck env window r s)) \<longleftrightarrow>
      (\<exists>res kvs v. r = Fulfilled res \<and> json res = Fulfilled (JObj kvs)
          \<and> map_of kvs (js ''ok'') = Some v \<and> truthy v)"
    by (rule sessionCheck_isLoggedIn_iff)
  from 1 2 show ?thesis by blast
qed

text \<open>The amended statement at a 200 response with body \<open>{"ok": true}\<close>, then with its status flag cleared.\<close>

theorem sessionCheck_body_decides_witness:
  "isLoggedIn (snd (sessionCheck None None
       (Fulfilled \<lparr>ok = True, json = Fulfilled (JObj [(js ''ok'', JBool True)])\<rparr>) app_init))
   \<and> sessionCheck None None
       (Fulfilled (\<lparr>ok = True, json = Fulfilled (JObj [(js ''ok'', JBool True)])\<rparr>\<lparr>ok := False\<rparr>)) app_init
     = sessionCheck None None
       (Fulfilled \<lparr>ok = True, json = Fulfilled (JObj [(js ''ok'', JBool True)])\<rparr>) app_init"
  using sessionCheck_body_decides
    [where env = None and window = None and s = app_init and b = False
       and r = "Fulfilled \<lparr>ok = True, json = Fulfilled (JObj [(js ''ok'', JBool True)])\<rparr>"
       and res = "\<lparr>ok = True, json = Fulfilled (JObj [(js ''ok'', JBool True)])\<rparr>"]
  by simp

text \<open>
  C1 as stated fails: a response with a non-2xx status (\<open>res.ok\<close> false) and the body
  \<open>{"ok": true}\<close> logs the user in.
\<close>

theorem sessionCheck_non2xx_counterexample:
  "\<not> ok \<lparr>ok = False, json = Fulfilled (JObj [(js ''ok'', JBool True)])\<rparr>
   \<and> isLoggedIn (snd (sessionCheck None None
        (Fulfilled \<lparr>ok = False, json = Fulfilled (JObj [(js ''ok'', JBool True)])\<rparr>) app_init))"
  by (simp add: sessionCheck_def app_init_def js_def)

text \<open>
  C5. While \<open>authChecked\<close> is false, as it is initially, App renders the loading
  placeholder and no route; however the session check settles, \<open>authChecked\<close> is true
  afterwards; and App then renders the anonymous routes, LoginPage at \<open>/\<close> and the
  wildcard that redirects to \<open>/\<close>, exactly when the check resolves falsy: when the
  fetch is rejected, when the body does not parse, and when the \<open>ok\<close> field of the
  body is falsy or missing.
\<close>

theorem App_gate:
  "(\<not> authChecked s \<longrightarrow> App s = Loading)
   \<and> App app_init = Loading
   \<and> authChecked (snd (sessionCheck env window r s))
   \<and> (\<not> isLoggedIn (snd (sessionCheck env window r s)) \<longrightarrow>
        App (snd (sessionCheck env window r s))
          = Routes [(js ''/'', LoginPage True), (js ''*'', Navigate (js ''/'') True)])
   \<and> ((App (snd (sessionCheck env window r s))
          = Routes [(js ''/'', LoginPage True), (js ''*'', Navigate (js ''/'') True)])
        \<longleftrightarrow> \<not> (\<exists>res kvs v. r = Fulfilled res \<and> json res = Fulfilled (JObj kvs)
                  \<and> map_of kvs (js ''ok'') = Some v \<and> truthy v))
   \<and> (r = Rejected \<longrightarrow>
        App (snd (sessionCheck env window r s))
          = Routes [(js ''/'', LoginPage True), (js ''*'', Navigate (js ''/'') True)])
   \<and> (r = Fulfilled res \<and> json res = Rejected \<longrightarrow>
        App (snd (sessionCheck env window r s))
          = Routes [(js ''/'', LoginPage True), (js ''*'', Navigate (js ''/'') True)])
   \<and> (r = Fulfilled res \<and> json res = Fulfilled data \<and> getPropOpt data (js ''ok'') = Inr v
        \<and> \<not> truthy v \<longrightarrow>
        App (snd (sessionCheck env window r s))
          = Routes [(js ''/'', LoginPage True), (js ''*'', Navigate (js ''/'') True)])"
proof -
  let ?anon = "Routes [(js ''/'', LoginPage True), (js ''*'', Navigate (js ''/'') True)]"
  let ?s' = "snd (sessionCheck env window r s)"
  have a: "authChecked ?s'"
    by (simp add: sessionCheck_def Let_def)
  have b: "App ?s' = ?anon \<longleftrightarrow> \<not> isLoggedIn ?s'"
    using a by (simp add: App_def)
  have 1: "\<not> authChecked s \<longrightarrow> App s = Loading" by (simp add: App_def)
  have 2: "App app_init = Loading" by (simp add: App_def app_init_def)
  have 4: "\<not> isLoggedIn ?s' \<longrightarrow> App ?s' = ?anon" using b by simp
  have 5: "App ?s' = ?anon
        \<longleftrightarrow> \<not> (\<exists>res kvs v. r = Fulfilled res \<and> json res = Fulfilled (JObj kvs)
                  \<and> map_of kvs (js ''ok'') = Some v \<and> truthy v)"
    using b sessionCheck_isLoggedIn_iff[of env window r s] by simp
  have 6: "r = Rejected \<longrightarrow> App ?s' = ?anon"
    using 5 by auto
  have 7: "r = Fulfilled res \<and> json res = Rejected \<longrightarrow> App ?s' = ?anon"
    using 5 by auto
  have 8: "r = Fulfilled res \<and> json res = Fulfilled data \<and> getPropOpt data (js ''ok'') = Inr v
        \<and> \<not> truthy v \<longrightarrow> App ?s' = ?anon"
  proof (intro impI, elim conjE)
    assume h: "r = Fulfilled res" "json res = Fulfilled data"
      "getPropOpt data (js ''ok'') = Inr v" "\<not> truthy v"
    have "\<not> (\<exists>res kvs v. r = Fulfilled res \<and> json res = Fulfilled (JObj kvs)
                  \<and> map_of kvs (js ''ok'') = Some v \<and> truthy v)"
      using h by auto
    with 5 show "App ?s' = ?anon" by blast
  qed
  from a 1 2 4 5 6 7 8 show ?thesis by blast
qed

text \<open>
  C5 at the initial state, with a rejected fetch and with a 200 response whose body is
  \<open>{"ok": false}\<close>.
\<close>

theorem App_gate_witness:
  "\<not> authChecked app_init
   \<and> App app_init = Loading
   \<and> authChecked (snd (sessionCheck None None Rejected app_init))
   \<and> \<not> isLoggedIn (snd (sessionCheck None None Rejected app_init))
   \<and> App (snd (sessionCheck None None Rejected app_init))
       = Routes [(js ''/'', LoginPage True), (js ''*'', Navigate (js ''/'') True)]
   \<and> authChecked (snd (sessionCheck None None
        (Fulfilled \<lparr>ok = True, json = Fulfilled (JObj [(js ''ok'', JBool False)])\<rparr>) app_init))
   \<and> App (snd (sessionCheck None None
        (Fulfilled \<lparr>ok = True, json = Fulfilled (JObj [(js ''ok'', JBool False)])\<rparr>) app_init))
       = Routes [(js ''/'', LoginPage True), (js ''*'', Navigate (js ''/'') True)]"
proof -
  let ?data = "JObj [(js ''ok'', JBool False)]"
  let ?res = "\<lparr>ok = True, json = Fulfilled ?data\<rparr>"
  have h1: "\<not> authChecked app_init" by (simp add: app_init_def)
  have h2: "\<not> isLoggedIn (snd (sessionCheck None None Rejected app_init))"
    by (simp add: sessionCheck_def app_init_def)
  have h3: "json ?res = Fulfilled ?data" "getPropOpt ?data (js ''ok'') = Inr (JBool False)"
    "\<not> truthy (JBool False)"
    by simp_all
  have 1: "App app_init = Loading
     \<and> authChecked (snd (sessionCheck None None Rejected app_init))
     \<and> App (snd (sessionCheck None None Rejected app_init))
       = Routes [(js ''/'', LoginPage True), (js ''*'', Navigate (js ''/'') True)]"
    using h1 h2 App_gate [where s = app_init and env = None and window = None and r = Rejected]
    by simp
  have 2: "authChecked (snd (sessionCheck None None (Fulfilled ?res) app_init))
     \<and> App (snd (sessionCheck None None (Fulfilled ?res) app_init))
       = Routes [(js ''/'', LoginPage True), (js ''*'', Navigate (js ''/'') True)]"
    using h3 App_gate [where s = app_init and env = None and window = None
        and r = "Fulfilled ?res" and res = ?res and data = ?data and v = "JBool False"]
    by blast
  from h1 h2 1 2 show ?thesis by blast
qed

section \<open>The whoami fetch of the session-aware Header\<close>

text \<open>
  C2. Whatever the state before, \<open>fetchUserInfo\<close> sets \<open>userInfo\<close> to \<open>null\<close> when the
  fetch is rejected, when the response is not ok, when reading the body throws, and
  when \<open>logged_in\<close> is falsy; on an ok response whose body has a truthy \<open>logged_in\<close> it
  sets a \<open>userInfo\<close> object that carries every truthy \<open>email\<close>, \<open>nickname\<close> and
  \<open>profile_image\<close> of the body and its \<open>id\<close>.
\<close>

theorem fetchUserInfo_state:
  "(r = Rejected \<longrightarrow> snd (fetchUserInfo env r prior) = None)
   \<and> (r = Fulfilled res \<and> \<not> ok res \<longrightarrow> snd (fetchUserInfo env r prior) = None)
   \<and> (r = Fulfilled res \<and> json res = Rejected \<longrightarrow> snd (fetchUserInfo env r prior) = None)
   \<and> (r = Fulfilled res \<and> json res = Fulfilled data \<and> getPropOpt data (js ''logged_in'') = Inr v
        \<and> \<not> truthy v \<longrightarrow> snd (fetchUserInfo env r prior) = None)
   \<and> (r = Fulfilled res \<and> ok res \<and> json res = Fulfilled data \<and> getPropOpt data (js ''logged_in'') = Inr v
        \<and> truthy v \<longrightarrow>
        (\<exists>kvs u. data = JObj kvs \<and> snd (fetchUserInfo env r prior) = Some u
           \<and> (truthy (field kvs (js ''email'')) \<longrightarrow> email u = field kvs (js ''email''))
           \<and> (truthy (field kvs (js ''nickname'')) \<longrightarrow> nickname u = field kvs (js ''nickname''))
           \<and> (truthy (field kvs (js ''profile_image'')) \<longrightarrow>
                 profile_image u = field kvs (js ''profile_image''))
           \<and> id_field u = field kvs (js ''id'')))"
proof -
  have 1: "r = Rejected \<longrightarrow> snd (fetchUserInfo env r prior) = None"
    by (auto simp: fetchUserInfo_def Let_def)
  have 2: "r = Fulfilled res \<and> \<not> ok res \<longrightarrow> snd (fetchUserInfo env r prior) = None"
    by (auto simp: fetchUserInfo_def Let_def)
  have 3: "r = Fulfilled res \<and> json res = Rejected \<longrightarrow> snd (fetchUserInfo env r prior) = None"
    by (auto simp: fetchUserInfo_def Let_def)
  have 4: "r = Fulfilled res \<and> json res = Fulfilled data \<and> getPropOpt data (js ''logged_in'') = Inr v
        \<and> \<not> truthy v \<longrightarrow> snd (fetchUserInfo env r prior) = None"
    by (auto simp: fetchUserInfo_def Let_def)
  have 5: "r = Fulfilled res \<and> ok res \<and> json res = Fulfilled data \<and> getPropOpt data (js ''logged_in'') = Inr v
        \<and> truthy v \<longrightarrow>
        (\<exists>kvs u. data = JObj kvs \<and> snd (fetchUserInfo env r prior) = Some u
           \<and> (truthy (field kvs (js ''email'')) \<longrightarrow> email u = field kvs (js ''email''))
           \<and> (truthy (field kvs (js ''nickname'')) \<longrightarrow> nickname u = field kvs (js ''nickname''))
           \<and> (truthy (field kvs (js ''profile_image'')) \<longrightarrow>
                 profile_image u = field kvs (js ''profile_image''))
           \<and> id_field u = field kvs (js ''id''))"
  proof (intro impI, elim conjE)
    assume a: "r = Fulfilled res" "ok res" "json res = Fulfilled data"
      "getPropOpt data (js ''logged_in'') = Inr v" "truthy v"
    then obtain kvs where k: "data = JObj kvs" "map_of kvs (js ''logged_in'') = Some v"
      using getPropOpt_truthy by blast
    with a have "truthy (field kvs (js ''logged_in''))" by (simp add: field_def)
    with a k fetchUserInfo_logged_in[of res kvs env prior]
    show "\<exists>kvs u. data = JObj kvs \<and> snd (fetchUserInfo env r prior) = Some u
           \<and> (truthy (field kvs (js ''email'')) \<longrightarrow> email u = field kvs (js ''email''))
           \<and> (truthy (field kvs (js ''nickname'')) \<longrightarrow> nickname u = field kvs (js ''nickname''))
           \<and> (truthy (field kvs (js ''profile_image'')) \<longrightarrow>
                 profile_image u = field kvs (js ''profile_image''))
           \<and> id_field u = field kvs (js ''id'')"
      by (simp add: jsOr_def)
  qed
  from 1 2 3 4 5 show ?thesis by blast
qed

text \<open>
  C2 at an ok response with body \<open>{"logged_in": true, "nickname": "Kim"}\<close> and a state
  that held a user before, and at a rejected fetch from the same state.
\<close>

theorem fetchUserInfo_state_witness:
  "snd (fetchUserInfo None Rejected
          (Some \<lparr>email = JStr [], nickname = JStr (js ''Lee''), profile_image = JStr [],
                 id_field = JUndefined\<rparr>)) = None
   \<and> (\<exists>u. snd (fetchUserInfo None
          (Fulfilled \<lparr>ok = True, json = Fulfilled (JObj [(js ''logged_in'', JBool True),
               (js ''nickname'', JStr (js ''Kim''))])\<rparr>)
          (Some \<lparr>email = JStr [], nickname = JStr (js ''Lee''), profile_image = JStr [],
                 id_field = JUndefined\<rparr>)) = Some u
        \<and> nickname u = JStr (js ''Kim''))"
proof -
  let ?prior = "Some \<lparr>email = JStr [], nickname = JStr (js ''Lee''), profile_image = JStr [],
                 id_field = JUndefined\<rparr>"
  let ?data = "JObj [(js ''logged_in'', JBool True), (js ''nickname'', JStr (js ''Kim''))]"
  let ?res = "\<lparr>ok = True, json = Fulfilled ?data\<rparr>"
  have h: "getPropOpt ?data (js ''logged_in'') = Inr (JBool True)" "truthy (JBool True)"
    by (simp_all add: js_def)
  have n: "map_of [(js ''logged_in'', JBool True), (js ''nickname'', JStr (js ''Kim''))] (js ''nickname'')
      = Some (JStr (js ''Kim''))"
    by (simp add: js_def)
  have 1: "snd (fetchUserInfo None Rejected ?prior) = None"
    using fetchUserInfo_state [where r = Rejected and env = None and prior = ?prior] by simp
  have 2: "\<exists>u. snd (fetchUserInfo None (Fulfilled ?res) ?prior) = Some u \<and> nickname u = JStr (js ''Kim'')"
    using h n fetchUserInfo_state [where r = "Fulfilled ?res" and res = ?res and data = ?data
        and v = "JBool True" and env = None and prior = ?prior]
    by (auto simp: field_def js_def)
  from 1 2 show ?thesis by blast
qed

text \<open>
  C3 (as amended). On an ok response whose body has a truthy \<open>logged_in\<close>, each of
  \<open>email\<close>, \<open>nickname\<close> and \<open>profile_image\<close> that is missing from the body, or falsy
  in it, is the empty string in the resulting \<open>userInfo\<close>, each one that is truthy is
  kept, and none of the three is ever \<open>undefined\<close>; \<open>id\<close> is copied from the body as
  it is, so a missing \<open>id\<close> is \<open>undefined\<close>.
\<close>

theorem fetchUserInfo_defaults:
  "ok res \<and> json res = Fulfilled data \<and> getPropOpt data (js ''logged_in'') = Inr v \<and> truthy v \<longrightarrow>
     (\<exists>kvs u. data = JObj kvs \<and> snd (fetchUserInfo env (Fulfilled res) prior) = Some u
        \<and> (map_of kvs (js ''email'') = None \<longrightarrow> email u = JStr [])
        \<and> (map_of kvs (js ''nickname'') = None \<longrightarrow> nickname u = JStr [])
        \<and> (map_of kvs (js ''profile_image'') = None \<longrightarrow> profile_image u = JStr [])
        \<and> (\<not> truthy (field kvs (js ''email'')) \<longrightarrow> email u = JStr [])
        \<and> (\<not> truthy (field kvs (js ''nickname'')) \<longrightarrow> nickname u = JStr [])
        \<and> (\<not> truthy (field kvs (js ''profile_image'')) \<longrightarrow> profile_image u = JStr [])
        \<and> (truthy (field kvs (js ''email'')) \<longrightarrow> email u = field kvs (js ''email''))
        \<and> (truthy (field kvs (js ''nickname'')) \<longrightarrow> nickname u = field kvs (js ''nickname''))
        \<and> (truthy (field kvs (js ''profile_image'')) \<longrightarrow>
              profile_image u = field kvs (js ''profile_image''))
        \<and> email u \<noteq> JUndefined \<and> nickname u \<noteq> JUndefined \<and> profile_image u \<noteq> JUndefined
        \<and> email u \<noteq> JNull \<and> nickname u \<noteq> JNull \<and> profile_image u \<noteq> JNull
        \<and> id_field u = field kvs (js ''id'')
        \<and> (map_of kvs (js ''id'') = None \<longrightarrow> id_field u = JUndefined))"
proof (intro impI, elim conjE)
  assume a: "ok res" "json res = Fulfilled data"
      "getPropOpt data (js ''logged_in'') = Inr v" "truthy v"
  then obtain kvs where k: "data = JObj kvs" "map_of kvs (js ''logged_in'') = Some v"
    using getPropOpt_truthy by blast
  with a have "truthy (field kvs (js ''logged_in''))" by (simp add: field_def)
  with a k fetchUserInfo_logged_in[of res kvs env prior]
  have u: "snd (fetchUserInfo env (Fulfilled res) prior) =
     Some \<lparr>email = jsOr (field kvs (js ''email'')) (JStr []),
          nickname = jsOr (field kvs (js ''nickname'')) (JStr []),
          profile_image = jsOr (field kvs (js ''profile_image'')) (JStr []),
          id_field = field kvs (js ''id'')\<rparr>"
    by simp
  show "\<exists>kvs u. data = JObj kvs \<and> snd (fetchUserInfo env (Fulfilled res) prior) = Some u
        \<and> (map_of kvs (js ''email'') = None \<longrightarrow> email u = JStr [])
        \<and> (map_of kvs (js ''nickname'') = None \<longrightarrow> nickname u = JStr [])
        \<and> (map_of kvs (js ''profile_image'') = None \<longrightarrow> profile_image u = JStr [])
        \<and> (\<not> truthy (field kvs (js ''email'')) \<longrightarrow> email u = JStr [])
        \<and> (\<not> truthy (field kvs (js ''nickname'')) \<longrightarrow> nickname u = JStr [])
        \<and> (\<not> truthy (field kvs (js ''profile_image'')) \<longrightarrow> profile_image u = JStr [])
        \<and> (truthy (field kvs (js ''email'')) \<longrightarrow> email u = field kvs (js ''email''))
        \<and> (truthy (field kvs (js ''nickname'')) \<longrightarrow> nickname u = field kvs (js ''nickname''))
        \<and> (truthy (field kvs (js ''profile_image'')) \<longrightarrow>
              profile_image u = field kvs (js ''profile_image''))
        \<and> email u \<noteq> JUndefined \<and> nickname u \<noteq> JUndefined \<and> profile_image u \<noteq> JUndefined
        \<and> email u \<noteq> JNull \<and> nickname u \<noteq> JNull \<and> profile_image u \<noteq> JNull
        \<and> id_field u = field kvs (js ''id'')
        \<and> (map_of kvs (js ''id'') = None \<longrightarrow> id_field u = JUndefined)"
    using k(1) u by (auto simp: jsOr_def field_def)
qed

text \<open>
  C3 as amended, at the body \<open>{"logged_in": true, "email": "a@b", "nickname": null}\<close>:
  the email is kept, the \<open>null\<close> nickname and the missing profile image become the
  empty string, the missing id stays \<open>undefined\<close>.
\<close>

theorem fetchUserInfo_defaults_witness:
  "\<exists>u. snd (fetchUserInfo None
          (Fulfilled \<lparr>ok = True, json = Fulfilled (JObj [(js ''logged_in'', JBool True),
               (js ''email'', JStr (js ''a@b'')), (js ''nickname'', JNull)])\<rparr>) None) = Some u
     \<and> email u = JStr (js ''a@b'') \<and> nickname u = JStr [] \<and> profile_image u = JStr []
     \<and> id_field u = JUndefined"
proof -
  let ?kvs = "[(js ''logged_in'', JBool True), (js ''email'', JStr (js ''a@b'')),
      (js ''nickname'', JNull)]"
  let ?res = "\<lparr>ok = True, json = Fulfilled (JObj ?kvs)\<rparr>"
  have h: "ok ?res" "json ?res = Fulfilled (JObj ?kvs)"
    "getPropOpt (JObj ?kvs) (js ''logged_in'') = Inr (JBool True)" "truthy (JBool True)"
    by (simp_all add: js_def)
  have m: "truthy (field ?kvs (js ''email''))" "field ?kvs (js ''email'') = JStr (js ''a@b'')"
    "\<not> truthy (field ?kvs (js ''nickname''))"
    "map_of ?kvs (js ''profile_image'') = None" "map_of ?kvs (js ''id'') = None"
    by (simp_all add: field_def js_def)
  show ?thesis
    using h m fetchUserInfo_defaults [where res = ?res and data = "JObj ?kvs" and v = "JBool True"
        and env = None and prior = None]
    by auto
qed

text \<open>
  C3 as stated fails for \<open>id\<close>: with the body \<open>{"logged_in": true}\<close> the resulting
  \<open>userInfo\<close> has \<open>id\<close> undefined.
\<close>

theorem fetchUserInfo_id_counterexample:
  "snd (fetchUserInfo None
          (Fulfilled \<lparr>ok = True, json = Fulfilled (JObj [(js ''logged_in'', JBool True)])\<rparr>) None)
   = Some \<lparr>email = JStr [], nickname = JStr [], profile_image = JStr [], id_field = JUndefined\<rparr>"
  by (simp add: fetchUserInfo_def mkUserInfo_def sbind_def jsOr_def js_def)




section \<open>Logout and unlink\<close>

text \<open>
  C4. Every run of the logout handler of AuthActions, with or without callbacks,
  makes exactly one fetch, a POST to \<open>API_BASE\<close> followed by \<open>/auth/kakao/logout\<close>
  with credentials included, and nothing happens before it. A fetch that throws is
  logged. When an \<open>onDone\<close> callback is given it is called exactly once, whether the
  response is ok, not ok, or the fetch throws. The thrown fetch is not propagated:
  \<open>call\<close> settles normally, with \<open>false\<close> then and with \<open>res.ok\<close> otherwise, and so
  does the handler, as long as no callback itself throws.
\<close>

theorem handleLogout_one_post_onDone:
  "filter isFetch (fst (handleLogout env r onDone onLogout))
      = [Fetch (API_BASE_AuthActions env @ js ''/auth/kakao/logout'') POST True]
   \<and> hd (fst (handleLogout env r onDone onLogout))
      = Fetch (API_BASE_AuthActions env @ js ''/auth/kakao/logout'') POST True
   \<and> (r = Rejected \<longrightarrow> ConsoleError \<in> set (fst (handleLogout env r onDone onLogout)))
   \<and> (onDone = Some cb \<longrightarrow>
         count_list (fst (handleLogout env r onDone onLogout)) (Called OnDone) = 1)
   \<and> (onDone \<noteq> Some Throws \<longrightarrow>
         snd (call env (js ''/auth/kakao/logout'') POST r onDone)
           = Inr (case r of Rejected \<Rightarrow> False | Fulfilled res \<Rightarrow> ok res))
   \<and> (onDone \<noteq> Some Throws \<and> onLogout \<noteq> Some Throws \<longrightarrow>
         snd (handleLogout env r onDone onLogout) = Inr ())"
proof -
  let ?t = "fst (handleLogout env r onDone onLogout)"
  let ?req = "Fetch (API_BASE_AuthActions env @ js ''/auth/kakao/logout'') POST True"
  have 1: "filter isFetch ?t = [?req]"
    by (cases r; cases onDone; cases onLogout)
       (auto simp: handleLogout_def call_cases invoke_def Let_def split: callback.splits)
  have 2: "hd ?t = ?req"
    by (cases r; cases onDone; cases onLogout)
       (auto simp: handleLogout_def call_cases invoke_def Let_def split: callback.splits)
  have 3: "r = Rejected \<longrightarrow> ConsoleError \<in> set ?t"
    by (cases onDone; cases onLogout)
       (auto simp: handleLogout_def call_cases invoke_def Let_def split: callback.splits)
  have 4: "onDone = Some cb \<longrightarrow> count_list ?t (Called OnDone) = 1"
    by (cases r; cases cb; cases onLogout)
       (auto simp: handleLogout_def call_cases invoke_def Let_def split: callback.splits)
  have 5: "onDone \<noteq> Some Throws \<longrightarrow>
         snd (call env (js ''/auth/kakao/logout'') POST r onDone)
           = Inr (case r of Rejected \<Rightarrow> False | Fulfilled res \<Rightarrow> ok res)"
    by (cases r; cases onDone)
       (auto simp: call_cases Let_def split: callback.splits)
  have 6: "onDone \<noteq> Some Throws \<and> onLogout \<noteq> Some Throws \<longrightarrow>
         snd (handleLogout env r onDone onLogout) = Inr ()"
    by (cases r; cases onDone; cases onLogout)
       (auto simp: handleLogout_def call_cases invoke_def Let_def split: callback.splits)
  from 1 2 3 4 5 6 show ?thesis by blast
qed

text \<open>
  C4 at a fetch that throws, with both callbacks given and returning, and at a non-ok
  response with no callback given.
\<close>

theorem handleLogout_one_post_onDone_witness:
  "filter isFetch (fst (handleLogout None Rejected (Some Returns) (Some Returns)))
        = [Fetch (API_BASE_AuthActions None @ js ''/auth/kakao/logout'') POST True]
   \<and> count_list (fst (handleLogout None Rejected (Some Returns) (Some Returns))) (Called OnDone) = 1
   \<and> ConsoleError \<in> set (fst (handleLogout None Rejected (Some Returns) (Some Returns)))
   \<and> snd (call None (js ''/auth/kakao/logout'') POST Rejected (Some Returns)) = Inr False
   \<and> snd (handleLogout None Rejected (Some Returns) (Some Returns)) = Inr ()
   \<and> filter isFetch (fst (handleLogout None (Fulfilled \<lparr>ok = False, json = Rejected\<rparr>) None None))
        = [Fetch (API_BASE_AuthActions None @ js ''/auth/kakao/logout'') POST True]
   \<and> snd (handleLogout None (Fulfilled \<lparr>ok = False, json = Rejected\<rparr>) None None) = Inr ()"
proof -
  have 1: "filter isFetch (fst (handleLogout None Rejected (Some Returns) (Some Returns)))
        = [Fetch (API_BASE_AuthActions None @ js ''/auth/kakao/logout'') POST True]
   \<and> count_list (fst (handleLogout None Rejected (Some Returns) (Some Returns))) (Called OnDone) = 1
   \<and> ConsoleError \<in> set (fst (handleLogout None Rejected (Some Returns) (Some Returns)))
   \<and> snd (call None (js ''/auth/kakao/logout'') POST Rejected (Some Returns)) = Inr False
   \<and> snd (handleLogout None Rejected (Some Returns) (Some Returns)) = Inr ()"
    using handleLogout_one_post_onDone [where onDone = "Some Returns" and cb = Returns
      and onLogout = "Some Returns" and r = Rejected and env = None]
    by simp
  have 2: "filter isFetch (fst (handleLogout None (Fulfilled \<lparr>ok = False, json = Rejected\<rparr>) None None))
        = [Fetch (API_BASE_AuthActions None @ js ''/auth/kakao/logout'') POST True]
   \<and> snd (handleLogout None (Fulfilled \<lparr>ok = False, json = Rejected\<rparr>) None None) = Inr ()"
    using handleLogout_one_post_onDone [where onDone = None and onLogout = None
      and r = "Fulfilled \<lparr>ok = False, json = Rejected\<rparr>" and env = None]
    by simp
  from 1 2 show ?thesis by blast
qed

text \<open>
  C10. With both callbacks given, in every run of the logout handler \<open>onLogout\<close> is
  not called before \<open>onDone\<close> has been called, and when \<open>onDone\<close> returns, \<open>onDone\<close> is
  called and \<open>onLogout\<close> is called after it. The same holds for the unlink handler and
  \<open>onUnlink\<close>.
\<close>

theorem onDone_before_action_callback:
  "onDone = Some d \<and> onLogout = Some l \<and> onUnlink = Some l' \<longrightarrow>
     (Called OnLogout \<in> set (fst (handleLogout env r onDone onLogout)) \<longrightarrow>
        precedes (Called OnDone) (Called OnLogout) (fst (handleLogout env r onDone onLogout)))
     \<and> (d = Returns \<longrightarrow>
          precedes (Called OnDone) (Called OnLogout) (fst (handleLogout env r onDone onLogout)))
     \<and> (Called OnUnlink \<in> set (fst (handleUnlink env r onDone onUnlink)) \<longrightarrow>
        precedes (Called OnDone) (Called OnUnlink) (fst (handleUnlink env r onDone onUnlink)))
     \<and> (d = Returns \<longrightarrow>
          precedes (Called OnDone) (Called OnUnlink) (fst (handleUnlink env r onDone onUnlink)))"
  by (cases r; cases d; cases l; cases l')
     (auto simp: handleLogout_def handleUnlink_def call_cases invoke_def Let_def precedes_def)

text \<open>C10 at an ok response, with all callbacks given and returning.\<close>

theorem onDone_before_action_callback_witness:
  "Called OnLogout \<in> set (fst (handleLogout None (Fulfilled \<lparr>ok = True, json = Rejected\<rparr>)
        (Some Returns) (Some Returns)))
   \<and> precedes (Called OnDone) (Called OnLogout)
        (fst (handleLogout None (Fulfilled \<lparr>ok = True, json = Rejected\<rparr>) (Some Returns) (Some Returns)))
   \<and> Called OnUnlink \<in> set (fst (handleUnlink None (Fulfilled \<lparr>ok = True, json = Rejected\<rparr>)
        (Some Returns) (Some Returns)))
   \<and> precedes (Called OnDone) (Called OnUnlink)
        (fst (handleUnlink None (Fulfilled \<lparr>ok = True, json = Rejected\<rparr>) (Some Returns) (Some Returns)))"
proof -
  let ?r = "Fulfilled \<lparr>ok = True, json = Rejected\<rparr>"
  have h1: "Called OnLogout \<in> set (fst (handleLogout None ?r (Some Returns) (Some Returns)))"
    by (simp add: handleLogout_def call_def invoke_def)
  have h2: "Called OnUnlink \<in> set (fst (handleUnlink None ?r (Some Returns) (Some Returns)))"
    by (simp add: handleUnlink_def call_def invoke_def)
  show ?thesis
    using h1 h2 onDone_before_action_callback [where onDone = "Some Returns" and d = Returns
      and onLogout = "Some Returns" and l = Returns and onUnlink = "Some Returns" and l' = Returns
      and r = ?r and env = None]
    by simp
qed

text \<open>
  C8. In the legacy Header, every run of the logout (unlink) handler starts with its
  only fetch, a GET to \<open>API_BASE\<close> followed by \<open>/logout\<close> (\<open>/unlink\<close>) with credentials
  included, and ends, whether the fetch was fulfilled with any status or threw, by
  clearing local storage and then navigating to \<open>/\<close>, neither of which happens earlier.
\<close>

theorem legacy_handlers_always_clear:
  "filter isFetch (legacy_handleLogout env r) = [Fetch (API_BASE_legacy env @ js ''/logout'') GET True]
   \<and> hd (legacy_handleLogout env r) = Fetch (API_BASE_legacy env @ js ''/logout'') GET True
   \<and> (\<exists>pre. legacy_handleLogout env r = pre @ [LocalStorageClear, NavigateTo (js ''/'') True]
          \<and> LocalStorageClear \<notin> set pre \<and> (\<forall>p b. NavigateTo p b \<notin> set pre))
   \<and> filter isFetch (legacy_handleUnlink env r) = [Fetch (API_BASE_legacy env @ js ''/unlink'') GET True]
   \<and> hd (legacy_handleUnlink env r) = Fetch (API_BASE_legacy env @ js ''/unlink'') GET True
   \<and> (\<exists>pre. legacy_handleUnlink env r = pre @ [LocalStorageClear, NavigateTo (js ''/'') True]
          \<and> LocalStorageClear \<notin> set pre \<and> (\<forall>p b. NavigateTo p b \<notin> set pre))"
  by (cases r) (auto simp: legacy_handleLogout_def legacy_handleUnlink_def)

text \<open>C8 at a fetch that throws and at a non-2xx response.\<close>

theorem legacy_handlers_always_clear_witness:
  "legacy_handleLogout None Rejected
     = [Fetch (renderUrl @ js ''/logout'') GET True, ConsoleError,
        LocalStorageClear, NavigateTo (js ''/'') True]
   \<and> legacy_handleUnlink None (Fulfilled \<lparr>ok = False, json = Rejected\<rparr>)
     = [Fetch (renderUrl @ js ''/unlink'') GET True,
        LocalStorageClear, NavigateTo (js ''/'') True]"
proof -
  have a: "API_BASE_legacy None = renderUrl" by (simp add: API_BASE_legacy_def)
  obtain pre where p: "legacy_handleLogout None Rejected = pre @ [LocalStorageClear, NavigateTo (js ''/'') True]"
    using legacy_handlers_always_clear [where env = None and r = Rejected] by blast
  have "legacy_handleLogout None Rejected
     = [Fetch (renderUrl @ js ''/logout'') GET True, ConsoleError,
        LocalStorageClear, NavigateTo (js ''/'') True]"
    using p a by (simp add: legacy_handleLogout_def)
  moreover have "legacy_handleUnlink None (Fulfilled \<lparr>ok = False, json = Rejected\<rparr>)
     = [Fetch (renderUrl @ js ''/unlink'') GET True,
        LocalStorageClear, NavigateTo (js ''/'') True]"
    using a by (simp add: legacy_handleUnlink_def)
  ultimately show ?thesis by simp
qed

section \<open>Routes\<close>




section \<open>Resolution of API_BASE\<close>

text \<open>
  C7 (as amended). AuthActions and the session-aware Header resolve \<open>API_BASE\<close> to the
  environment override with all trailing slashes stripped when that is set and not
  empty after stripping, and to the fixed default otherwise. App resolves it to the
  override with all trailing slashes stripped when the override is set and not empty,
  and otherwise to the hostname-based default (the deployed URL on a host ending in
  \<open>github.io\<close>, the local URL elsewhere). In these three the resolved value never ends
  with a slash. The legacy Header takes the override when it is set and not empty, and
  the fixed default otherwise; it has no stripping step.
\<close>

theorem API_BASE_resolution:
  "API_BASE_AuthActions env =
     (case env of
        None \<Rightarrow> renderUrl
      | Some e \<Rightarrow> if stripAllTrailingSlashes_spec e = [] then renderUrl
                  else stripAllTrailingSlashes_spec e)
   \<and> API_BASE_Header env = API_BASE_AuthActions env
   \<and> API_BASE_App env window =
     (case env of
        Some (c # cs) \<Rightarrow> stripAllTrailingSlashes_spec (c # cs)
      | _ \<Rightarrow> if (case window of None \<Rightarrow> False | Some h \<Rightarrow> endsWith h (js ''github.io''))
             then renderUrl else localUrl)
   \<and> API_BASE_legacy env = (case env of Some (c # cs) \<Rightarrow> c # cs | _ \<Rightarrow> renderUrl)
   \<and> \<not> hasTrailingSlash (API_BASE_AuthActions env)
   \<and> \<not> hasTrailingSlash (API_BASE_Header env)
   \<and> \<not> hasTrailingSlash (API_BASE_App env window)"
proof -
  have e: "stripAllTrailingSlashes_spec [] = []"
    by (simp add: stripAllTrailingSlashes_spec_def)
  have 1: "API_BASE_AuthActions env =
     (case env of
        None \<Rightarrow> renderUrl
      | Some e \<Rightarrow> if stripAllTrailingSlashes_spec e = [] then renderUrl
                  else stripAllTrailingSlashes_spec e)"
    using e by (auto simp: API_BASE_AuthActions_def replaceTrailingSlashes_spec Let_def
        split: option.splits)
  have 2: "API_BASE_Header env = API_BASE_AuthActions env"
    by (simp add: API_BASE_Header_def API_BASE_AuthActions_def)
  have d: "stripAllTrailingSlashes_spec renderUrl = renderUrl"
    "stripAllTrailingSlashes_spec localUrl = localUrl"
    using renderUrl_no_slash localUrl_no_slash by (simp_all add: strip_spec_id)
  have 3: "API_BASE_App env window =
     (case env of
        Some (c # cs) \<Rightarrow> stripAllTrailingSlashes_spec (c # cs)
      | _ \<Rightarrow> if (case window of None \<Rightarrow> False | Some h \<Rightarrow> endsWith h (js ''github.io''))
             then renderUrl else localUrl)"
    using d by (auto simp: API_BASE_App_def replaceTrailingSlashes_spec Let_def
        split: option.splits list.splits)
  have 4: "API_BASE_legacy env = (case env of Some (c # cs) \<Rightarrow> c # cs | _ \<Rightarrow> renderUrl)"
    by (auto simp: API_BASE_legacy_def split: option.splits list.splits)
  have 5: "\<not> hasTrailingSlash (API_BASE_AuthActions env)"
    using no_trailing_spec renderUrl_no_slash
    by (auto simp: 1 split: option.splits)
  have 6: "\<not> hasTrailingSlash (API_BASE_App env window)"
    unfolding API_BASE_App_def replaceTrailingSlashes_spec by (rule no_trailing_spec)
  from 1 2 3 4 5 6 show ?thesis by simp
qed

text \<open>C7 as amended, at the override \<open>http://x//\<close>.\<close>

theorem API_BASE_resolution_witness:
  "API_BASE_AuthActions (Some (js ''http://x//'')) = js ''http://x''
   \<and> API_BASE_Header (Some (js ''http://x//'')) = js ''http://x''
   \<and> API_BASE_App (Some (js ''http://x//'')) None = js ''http://x''
   \<and> API_BASE_legacy (Some (js ''http://x//'')) = js ''http://x//''
   \<and> \<not> hasTrailingSlash (API_BASE_App (Some (js ''http://x//'')) None)"
proof -
  have s: "stripAllTrailingSlashes_spec (js ''http://x//'') = js ''http://x''"
    by (simp add: stripAllTrailingSlashes_spec_def js_def slash_def)
  have n: "js ''http://x'' \<noteq> []" "js ''http://x//'' \<noteq> []"
    by (simp_all add: js_def)
  show ?thesis
    using s n API_BASE_resolution [where env = "Some (js ''http://x//'')" and window = None]
    by (auto split: list.splits)
qed

text \<open>
  C7 as stated fails for the legacy Header: the override \<open>http://x/\<close> is resolved to
  itself, with its trailing slash.
\<close>

theorem API_BASE_legacy_counterexample:
  "API_BASE_legacy (Some (js ''http://x/'')) = js ''http://x/''
   \<and> hasTrailingSlash (API_BASE_legacy (Some (js ''http://x/'')))"
  by (simp add: API_BASE_legacy_def hasTrailingSlash_def js_def slash_def)

end
